theory Spec2Isabelle
  imports Main
begin

section \<open>JavaScript primitives used by parsers.ts\<close>

text \<open>
  The module is TypeScript running on Node. Strings are modelled as \<^typ>\<open>string\<close>,
  JavaScript numbers that hold line and column numbers and indices as \<^typ>\<open>int\<close>,
  a thrown exception (or a rejected promise of an \<open>async\<close> function) as the left
  injection of a sum.
\<close>

datatype js_exception = TypeError | LibraryError

definition startsWith :: "string \<Rightarrow> string \<Rightarrow> bool" where
  \<comment> \<open>\<open>s.startsWith(p)\<close>\<close>
  "startsWith s p = (take (length p) s = p)"

fun indexOf_scan :: "string \<Rightarrow> string \<Rightarrow> nat \<Rightarrow> int" where
  "indexOf_scan [] p k = (if p = [] then int k else - 1)"
| "indexOf_scan (c # cs) p k =
     (if startsWith (c # cs) p then int k else indexOf_scan cs p (Suc k))"

definition indexOf :: "string \<Rightarrow> string \<Rightarrow> int" where
  \<comment> \<open>\<open>s.indexOf(p)\<close>: the first position where \<open>p\<close> occurs, or -1\<close>
  "indexOf s p = indexOf_scan s p 0"

definition str_includes :: "string \<Rightarrow> string \<Rightarrow> bool" where
  \<comment> \<open>\<open>s.includes(p)\<close>\<close>
  "str_includes s p = (indexOf s p \<noteq> - 1)"

fun lastIndexOf_scan :: "string \<Rightarrow> string \<Rightarrow> nat \<Rightarrow> nat \<Rightarrow> int \<Rightarrow> int" where
  "lastIndexOf_scan [] p k lim best = (if p = [] \<and> k \<le> lim then int k else best)"
| "lastIndexOf_scan (c # cs) p k lim best =
     (if lim < k then best
      else lastIndexOf_scan cs p (Suc k) lim (if startsWith (c # cs) p then int k else best))"

definition lastIndexOf :: "string \<Rightarrow> string \<Rightarrow> int" where
  \<comment> \<open>\<open>s.lastIndexOf(p)\<close>: the last position where \<open>p\<close> occurs, or -1\<close>
  "lastIndexOf s p = lastIndexOf_scan s p 0 (length s) (- 1)"

definition lastIndexOf_from :: "string \<Rightarrow> string \<Rightarrow> int \<Rightarrow> int" where
  \<comment> \<open>\<open>s.lastIndexOf(p, pos)\<close>: the last position not after \<open>pos\<close> (floored at 0)\<close>
  "lastIndexOf_from s p pos = lastIndexOf_scan s p 0 (nat (max pos 0)) (- 1)"

definition substr :: "string \<Rightarrow> int \<Rightarrow> string" where
  \<comment> \<open>\<open>s.substr(start)\<close>: a negative start counts from the end\<close>
  "substr s start =
     (if start < 0 then drop (nat (max (int (length s) + start) 0)) s
      else drop (nat start) s)"

definition replace_slashes :: "string \<Rightarrow> string" where
  \<comment> \<open>\<open>s.replace(/\//g, '.')\<close>\<close>
  "replace_slashes s = map (\<lambda>c. if c = CHR ''/'' then CHR ''.'' else c) s"

fun split_on :: "char \<Rightarrow> string \<Rightarrow> string list" where
  "split_on d [] = [[]]"
| "split_on d (c # cs) =
     (if c = d then [] # split_on d cs
      else (case split_on d cs of [] \<Rightarrow> [[c]] | l # ls \<Rightarrow> (c # l) # ls))"

definition split_lines :: "string \<Rightarrow> string list" where
  \<comment> \<open>\<open>s.split('\n')\<close>\<close>
  "split_lines s = split_on (CHR 0x0A) s"

definition slice :: "'a list \<Rightarrow> int \<Rightarrow> int \<Rightarrow> 'a list" where
  \<comment> \<open>\<open>xs.slice(start, end)\<close>: negative arguments count from the end of the array\<close>
  "slice xs start end =
     (let n = int (length xs);
          k = (if start < 0 then max (n + start) 0 else min start n);
          final = (if end < 0 then max (n + end) 0 else min end n)
      in take (nat (final - k)) (drop (nat k) xs))"

definition slice_from :: "'a list \<Rightarrow> int \<Rightarrow> 'a list" where
  \<comment> \<open>\<open>xs.slice(start)\<close>\<close>
  "slice_from xs start = slice xs start (int (length xs))"

definition element_at :: "'a list \<Rightarrow> int \<Rightarrow> 'a option" where
  \<comment> \<open>\<open>xs[i]\<close>: \<open>undefined\<close> outside the array\<close>
  "element_at xs i = (if 0 \<le> i \<and> i < int (length xs) then Some (xs ! nat i) else None)"

definition or_string :: "string option \<Rightarrow> string \<Rightarrow> string" where
  \<comment> \<open>\<open>a || b\<close> for a string that may be null or undefined; the empty string is falsy\<close>
  "or_string a b = (case a of None \<Rightarrow> b | Some s \<Rightarrow> if s = [] then b else s)"

definition or_zero :: "int option \<Rightarrow> int" where
  \<comment> \<open>\<open>n || 0\<close> for a number that may be null or undefined\<close>
  "or_zero n = (case n of None \<Rightarrow> 0 | Some k \<Rightarrow> k)"

definition nullable_to_string :: "string option \<Rightarrow> string" where
  \<comment> \<open>a string or null inside a template literal\<close>
  "nullable_to_string a = (case a of None \<Rightarrow> ''null'' | Some s \<Rightarrow> s)"

subsection \<open>Node's path module, POSIX flavour\<close>

text \<open>
  \<open>path.dirname\<close> and \<open>path.basename\<close> belong to the Node runtime. They are written
  here after Node's POSIX algorithm: trailing separators are skipped, the last path
  component is cut off, and the extension is removed only from a component that ends
  with it without being equal to it.
\<close>

definition is_sep :: "char \<Rightarrow> bool" where
  "is_sep c = (c = CHR ''/'')"

definition dirname :: "string \<Rightarrow> string" where
  "dirname path =
     (case path of
        [] \<Rightarrow> ''.''
      | c # rest \<Rightarrow>
          (let hasRoot = is_sep c;
               r = dropWhile (\<lambda>x. \<not> is_sep x) (dropWhile is_sep (rev rest))
           in if r = [] then (if hasRoot then ''/'' else ''.'')
              else if hasRoot \<and> length r = 1 then ''//''
              else take (length r) path))"

definition endsWith :: "string \<Rightarrow> string \<Rightarrow> bool" where
  "endsWith s p = (length p \<le> length s \<and> drop (length s - length p) s = p)"

definition basename :: "string \<Rightarrow> string \<Rightarrow> string" where
  "basename path suffix =
     (let r = dropWhile is_sep (rev path);
          comp = rev (takeWhile (\<lambda>x. \<not> is_sep x) r)
      in if suffix \<noteq> [] \<and> length suffix \<le> length path then
           (if suffix = path then []
            else if r = [] then path
            else if endsWith comp suffix then
              (if comp = suffix then comp else take (length comp - length suffix) comp)
            else if endsWith suffix comp then comp @ drop (length r) path
            else comp)
         else comp)"

section \<open>Function names of raw stack entries\<close>

text \<open>
  A raw stack entry is a \<open>stacktrace.StackFrame\<close> of the stack-trace library, read
  through its getters. The three name getters are called inside the \<open>try\<close> of
  \<open>getFunction\<close> and may throw; a getter that returns gives a string or null. The
  getters for file, line, column and the native flag are taken to return what the parser
  stored.
\<close>

record raw_frame =
  getFunctionName :: "js_exception + string option"
  getTypeName :: "js_exception + string option"
  getMethodName :: "js_exception + string option"
  getFileName :: "string option"
  getLineNumber :: "int option"
  getColumnNumber :: "int option"
  isNative :: bool

definition getFunction_try :: "raw_frame \<Rightarrow> js_exception + string" where
  \<comment> \<open>parsers.ts line 19: the body of the \<open>try\<close> block, evaluated left to right\<close>
  "getFunction_try frame =
     (case getFunctionName frame of
        Inl e \<Rightarrow> Inl e
      | Inr fn \<Rightarrow>
          if or_string fn [] \<noteq> [] then Inr (or_string fn [])
          else (case getTypeName frame of
                  Inl e \<Rightarrow> Inl e
                | Inr tn \<Rightarrow>
                    (case getMethodName frame of
                       Inl e \<Rightarrow> Inl e
                     | Inr mn \<Rightarrow>
                         Inr (nullable_to_string tn @ ''.'' @ or_string mn ''<anonymous>''))))"

definition getFunction :: "raw_frame \<Rightarrow> string" where
  \<comment> \<open>parsers.ts lines 17-26: the \<open>catch\<close> returns the sentinel\<close>
  "getFunction frame =
     (case getFunction_try frame of Inl e \<Rightarrow> ''<anonymous>'' | Inr s \<Rightarrow> s)"

section \<open>Module names\<close>

definition getModule :: "string \<Rightarrow> string \<Rightarrow> string option \<Rightarrow> string" where
  \<comment> \<open>parsers.ts lines 32-57; the first argument is the module constant \<open>mainModule\<close>
      of lines 28-29, fixed when the module loads\<close>
  "getModule mainModule filename0 base0 =
     (let base = or_string base0 mainModule;
          file = basename filename0 ''.js'';
          filename = dirname filename0;
          n = lastIndexOf filename ''/node_modules/''
      in if n > - 1 then replace_slashes (substr filename (n + 14)) @ '':'' @ file
         else
           (let n = lastIndexOf_from (filename @ ''/'') base 0
            in if n = 0 then
                 (let moduleName = replace_slashes (substr filename (int (length base)));
                      moduleName = (if moduleName \<noteq> [] then moduleName @ '':'' else moduleName)
                  in moduleName @ file)
               else file))"

section \<open>Error objects and the environment\<close>

text \<open>
  A JavaScript value as far as the parsers look at it. Numbers are integers here. An
  object is the list of properties that can be read from it. A property is a data
  property, which holds a value, or an accessor, whose getter runs at every read and
  returns a value or throws; a getter has the same outcome at every read.
\<close>

datatype jsval =
    JUndefined
  | JNull
  | JBool bool
  | JNum int
  | JStr string
  | JObj "(string \<times> jsprop) list"
and jsprop =
    Data jsval
  | Getter "js_exception + jsval"

fun run_prop :: "jsprop \<Rightarrow> js_exception + jsval" where
  \<comment> \<open>reading a property\<close>
  "run_prop (Data v) = Inr v"
| "run_prop (Getter g) = g"

text \<open>
  The error object handed to \<open>parseError\<close>: \<open>enumerable\<close> are its own enumerable
  properties in the order of \<open>Object.keys\<close>, \<open>hidden\<close> are the properties that can be
  read but are not listed by \<open>Object.keys\<close> (own and not enumerable, such as the
  \<open>message\<close> and \<open>stack\<close> of a built-in Error, or inherited, such as \<open>name\<close> and
  \<open>constructor\<close>).
\<close>

record error_obj =
  enumerable :: "(string \<times> jsprop) list"
  hidden :: "(string \<times> jsprop) list"

definition get_prop :: "error_obj \<Rightarrow> string \<Rightarrow> js_exception + jsval" where
  \<comment> \<open>\<open>error[key]\<close>: a property that is not there reads \<open>undefined\<close>, a getter may throw\<close>
  "get_prop error key =
     (case map_of (enumerable error) key of
        Some p \<Rightarrow> run_prop p
      | None \<Rightarrow>
          (case map_of (hidden error) key of
             Some p \<Rightarrow> run_prop p
           | None \<Rightarrow> Inr JUndefined))"

definition object_keys :: "error_obj \<Rightarrow> string list" where
  \<comment> \<open>\<open>Object.keys(error)\<close>\<close>
  "object_keys error = remdups (map fst (enumerable error))"

fun truthy :: "jsval \<Rightarrow> bool" where
  "truthy JUndefined = False"
| "truthy JNull = False"
| "truthy (JBool b) = b"
| "truthy (JNum n) = (n \<noteq> 0)"
| "truthy (JStr s) = (s \<noteq> [])"
| "truthy (JObj ps) = True"

definition js_or :: "jsval \<Rightarrow> jsval \<Rightarrow> jsval" where
  \<comment> \<open>\<open>a || b\<close> where \<open>b\<close> is a value\<close>
  "js_or a b = (if truthy a then a else b)"

fun name_of :: "jsval \<Rightarrow> js_exception + jsval" where
  \<comment> \<open>\<open>v.name\<close>: reading a property of null or undefined throws a TypeError\<close>
  "name_of JUndefined = Inl TypeError"
| "name_of JNull = Inl TypeError"
| "name_of (JObj ps) = (case map_of ps ''name'' of Some p \<Rightarrow> run_prop p | None \<Rightarrow> Inr JUndefined)"
| "name_of v = Inr JUndefined"

text \<open>
  What the module takes from outside: the stack-trace library's \<open>parse\<close>, the file
  reader \<open>readFileAsync\<close> (\<open>None\<close> is a rejected read or a result that is not a
  string), \<open>snipLine\<close> (its argument is \<open>None\<close> when the line is \<open>undefined\<close>), the
  constant \<open>mainModule\<close> computed when the module loads, the property names an array
  literal inherits from its prototype chain, and the conversion to a string of a value
  that is neither a string, a boolean, null nor undefined.
\<close>

record env =
  stacktrace_parse :: "error_obj \<Rightarrow> js_exception + raw_frame list option"
  readFileAsync :: "string \<Rightarrow> string option"
  snipLine :: "string option \<Rightarrow> int \<Rightarrow> js_exception + string"
  mainModule :: string
  array_inherited :: "string list"
  to_string_other :: "jsval \<Rightarrow> js_exception + string"

definition to_string :: "env \<Rightarrow> jsval \<Rightarrow> js_exception + string" where
  \<comment> \<open>a value inside a template literal or as a computed property key\<close>
  "to_string E v =
     (case v of
        JStr s \<Rightarrow> Inr s
      | JUndefined \<Rightarrow> Inr ''undefined''
      | JNull \<Rightarrow> Inr ''null''
      | JBool b \<Rightarrow> Inr (if b then ''true'' else ''false'')
      | _ \<Rightarrow> to_string_other E v)"

section \<open>Normalized frames\<close>

definition LINES_OF_CONTEXT :: int where
  "LINES_OF_CONTEXT = 7"

text \<open>
  The \<open>StackFrame\<close> of \<open>@sentry/types\<close> as \<open>parseStack\<close> fills it: \<open>func\<close> is the
  field \<open>function\<close>, \<open>frame_module\<close> the field \<open>module\<close>; an optional field that was
  never assigned is \<open>None\<close>.
\<close>

record StackFrame =
  colno :: "int option"
  filename :: string
  func :: string
  lineno :: "int option"
  in_app :: bool
  frame_module :: "string option"
  pre_context :: "string list option"
  context_line :: "string option"
  post_context :: "string list option"

definition isInternal :: "bool \<Rightarrow> string \<Rightarrow> bool" where
  \<comment> \<open>parsers.ts lines 112-117: the truth value of \<open>isInternal\<close> in \<open>parseStack\<close>\<close>
  "isInternal native fname =
     (native \<or>
      (fname \<noteq> [] \<and> \<not> startsWith fname ''/'' \<and> \<not> startsWith fname ''.'' \<and>
       indexOf fname [CHR '':'', CHR 0x5C] \<noteq> 1))"

definition parseFrame :: "env \<Rightarrow> raw_frame \<Rightarrow> StackFrame \<times> string list" where
  \<comment> \<open>parsers.ts lines 104-135, the callback of \<open>stack.map\<close>: the frame, and what it
      pushes on \<open>filesToRead\<close>.
      \<open>filename\<close> is always a string, so \<open>parsedFrame.filename !== undefined\<close> is true\<close>
  "parseFrame E frame =
     (let fname = or_string (getFileName frame) [];
          internal = isInternal (isNative frame) fname;
          parsedFrame =
            \<lparr>colno = getColumnNumber frame, filename = fname, func = getFunction frame,
             lineno = getLineNumber frame,
             in_app = (\<not> internal \<and> True \<and> \<not> str_includes fname ''node_modules/''),
             frame_module = None, pre_context = None, context_line = None,
             post_context = None\<rparr>
      in if fname \<noteq> [] then
           (parsedFrame\<lparr>frame_module := Some (getModule (mainModule E) fname None)\<rparr>,
            if \<not> internal then [fname] else [])
         else (parsedFrame, []))"

section \<open>Source context\<close>

definition readSourceFiles :: "env \<Rightarrow> string list \<Rightarrow> (string \<rightharpoonup> string)" where
  \<comment> \<open>parsers.ts lines 60-90: every read settles; a file whose read gave a string gets
      an entry\<close>
  "readSourceFiles E filenames =
     fold (\<lambda>fname sourceFiles.
             case readFileAsync E fname of
               None \<Rightarrow> sourceFiles
             | Some content \<Rightarrow> sourceFiles(fname \<mapsto> content))
          filenames Map.empty"

fun snip_all :: "env \<Rightarrow> string list \<Rightarrow> js_exception + string list" where
  \<comment> \<open>\<open>.map((line) => snipLine(line, 0))\<close>: the first throw ends the map\<close>
  "snip_all E [] = Inr []"
| "snip_all E (l # ls) =
     (case snipLine E (Some l) 0 of
        Inl e \<Rightarrow> Inl e
      | Inr s \<Rightarrow> (case snip_all E ls of Inl e \<Rightarrow> Inl e | Inr ss \<Rightarrow> Inr (s # ss)))"

definition addContext :: "env \<Rightarrow> (string \<rightharpoonup> string) \<Rightarrow> StackFrame \<Rightarrow> StackFrame" where
  \<comment> \<open>parsers.ts lines 154-174, the callback of \<open>frames.map\<close>; a throw inside the \<open>try\<close>
      keeps the fields assigned before it. A filename that has no entry of its own in
      \<open>sourceFiles\<close> reads undefined or an inherited property without \<open>split\<close>, and
      either way the frame stays as it is\<close>
  "addContext E sourceFiles frame =
     (if filename frame = [] then frame
      else
        (case sourceFiles (filename frame) of
           None \<Rightarrow> frame
         | Some content \<Rightarrow>
             if content = [] then frame
             else
               (let lines = split_lines content;
                    l = or_zero (lineno frame)
                in case snip_all E (slice lines (max 0 (l - (LINES_OF_CONTEXT + 1))) (l - 1)) of
                     Inl e \<Rightarrow> frame
                   | Inr pre \<Rightarrow>
                       (let frame1 = frame\<lparr>pre_context := Some pre\<rparr>
                        in case snipLine E (element_at lines (l - 1)) (or_zero (colno frame)) of
                             Inl e \<Rightarrow> frame1
                           | Inr cl \<Rightarrow>
                               (let frame2 = frame1\<lparr>context_line := Some cl\<rparr>
                                in case snip_all E (slice lines l (l + LINES_OF_CONTEXT)) of
                                     Inl e \<Rightarrow> frame2
                                   | Inr post \<Rightarrow> frame2\<lparr>post_context := Some post\<rparr>)))))"

definition addPrePostContext :: "env \<Rightarrow> string list \<Rightarrow> StackFrame list \<Rightarrow> StackFrame list" where
  \<comment> \<open>parsers.ts lines 152-175\<close>
  "addPrePostContext E filesToRead frames =
     (let sourceFiles = readSourceFiles E filesToRead
      in map (addContext E sourceFiles) frames)"

definition parseStack :: "env \<Rightarrow> raw_frame list \<Rightarrow> StackFrame list" where
  \<comment> \<open>parsers.ts lines 102-144. \<open>addPrePostContext\<close> has no throwing path here, so the
      \<open>catch\<close> that returns the frames without context is never taken\<close>
  "parseStack E stack =
     (let parsed = map (parseFrame E) stack;
          filesToRead = concat (map snd parsed);
          frames = map fst parsed
      in addPrePostContext E filesToRead frames)"

definition extractStackFromError :: "env \<Rightarrow> error_obj \<Rightarrow> js_exception + raw_frame list" where
  \<comment> \<open>parsers.ts lines 93-99: a throw of the parser is not caught\<close>
  "extractStackFromError E error =
     (case stacktrace_parse E error of
        Inl e \<Rightarrow> Inl e
      | Inr None \<Rightarrow> Inr []
      | Inr (Some stack) \<Rightarrow> Inr stack)"

section \<open>Event assembly\<close>

definition is_capture :: "string \<Rightarrow> bool" where
  "is_capture firstFrameFunction =
     (str_includes firstFrameFunction ''captureMessage'' \<or>
      str_includes firstFrameFunction ''captureException'')"

definition prepareFramesForEvent :: "StackFrame list option \<Rightarrow> StackFrame list" where
  \<comment> \<open>parsers.ts lines 218-232: the array that is returned; \<open>None\<close> is a null or
      undefined argument\<close>
  "prepareFramesForEvent stack =
     (case stack of
        None \<Rightarrow> []
      | Some frames \<Rightarrow>
          if length frames = 0 then []
          else
            (let firstFrameFunction = func (frames ! 0);
                 localStack = (if is_capture firstFrameFunction then slice_from frames 1
                               else frames)
             in rev localStack))"

text \<open>
  The same function with the arrays in a store, for what it does to the caller's array:
  a reference is an index into the store, \<open>slice\<close> and the literal \<open>[]\<close> allocate a new
  array at the end, \<open>reverse\<close> overwrites the array it is called on and returns the same
  reference.
\<close>

type_synonym store = "StackFrame list list"

definition alloc :: "store \<Rightarrow> StackFrame list \<Rightarrow> store \<times> nat" where
  "alloc h xs = (h @ [xs], length h)"

definition reverse_in_place :: "store \<Rightarrow> nat \<Rightarrow> store \<times> nat" where
  "reverse_in_place h r = (h[r := rev (h ! r)], r)"

definition prepareFramesForEvent_store :: "store \<Rightarrow> nat option \<Rightarrow> store \<times> nat" where
  "prepareFramesForEvent_store h stack =
     (case stack of
        None \<Rightarrow> alloc h []
      | Some r \<Rightarrow>
          if length (h ! r) = 0 then alloc h []
          else
            (let firstFrameFunction = func ((h ! r) ! 0);
                 (h1, localStack) =
                    (if is_capture firstFrameFunction then alloc h (slice_from (h ! r) 1)
                     else (h, r))
             in reverse_in_place h1 localStack))"

record SentryException =
  exc_frames :: "StackFrame list"
  exc_type :: jsval
  exc_value :: jsval

record SentryEvent =
  event_exception :: "SentryException list"
  event_message :: string
  event_extra :: "(string \<times> (string \<times> jsval) list) option"

definition error_name :: "error_obj \<Rightarrow> js_exception + jsval" where
  \<comment> \<open>parsers.ts lines 179 and 194: \<open>error.name || error.constructor.name\<close>\<close>
  "error_name error =
     (case get_prop error ''name'' of
        Inl e \<Rightarrow> Inl e
      | Inr n \<Rightarrow>
          if truthy n then Inr n
          else (case get_prop error ''constructor'' of
                  Inl e \<Rightarrow> Inl e
                | Inr c \<Rightarrow> name_of c))"

definition getExceptionFromError :: "env \<Rightarrow> error_obj \<Rightarrow> js_exception + SentryException" where
  \<comment> \<open>parsers.ts lines 178-190\<close>
  "getExceptionFromError E error =
     (case error_name error of
        Inl e \<Rightarrow> Inl e
      | Inr name \<Rightarrow>
          (case extractStackFromError E error of
             Inl e \<Rightarrow> Inl e
           | Inr stack \<Rightarrow>
               (let frames = parseStack E stack;
                    prepared = prepareFramesForEvent (Some frames)
                in case get_prop error ''message'' of
                     Inl e \<Rightarrow> Inl e
                   | Inr message \<Rightarrow>
                       Inr \<lparr>exc_frames = prepared, exc_type = name,
                            exc_value = message\<rparr>)))"

definition in_reserved_array :: "env \<Rightarrow> string \<Rightarrow> bool" where
  \<comment> \<open>parsers.ts line 202, \<open>key in ['name', 'message', 'stack', 'domain']\<close>: the \<open>in\<close> operator looks for a
      property of the array with that name, so for its indices, \<open>length\<close> and what the
      array inherits\<close>
  "in_reserved_array E key =
     (key \<in> set [''0'', ''1'', ''2'', ''3'', ''length''] \<or> key \<in> set (array_inherited E))"

definition errorKeys :: "env \<Rightarrow> error_obj \<Rightarrow> string list" where
  \<comment> \<open>parsers.ts line 202\<close>
  "errorKeys E error = filter (\<lambda>key. \<not> in_reserved_array E key) (object_keys error)"

fun copy_props :: "error_obj \<Rightarrow> string list \<Rightarrow> js_exception + (string \<times> jsval) list" where
  \<comment> \<open>parsers.ts lines 205-208: the loop that fills \<open>extraErrorInfo\<close>; a read that throws
      ends it\<close>
  "copy_props error [] = Inr []"
| "copy_props error (key # keys) =
     (case get_prop error key of
        Inl e \<Rightarrow> Inl e
      | Inr v \<Rightarrow>
          (case copy_props error keys of
             Inl e \<Rightarrow> Inl e
           | Inr extraErrorInfo \<Rightarrow> Inr ((key, v) # extraErrorInfo)))"

definition parseError :: "env \<Rightarrow> error_obj \<Rightarrow> js_exception + SentryEvent" where
  \<comment> \<open>parsers.ts lines 193-215, in the order of evaluation\<close>
  "parseError E error =
     (case error_name error of
        Inl e \<Rightarrow> Inl e
      | Inr name \<Rightarrow>
          (case getExceptionFromError E error of
             Inl e \<Rightarrow> Inl e
           | Inr exception \<Rightarrow>
               (case to_string E name of
                  Inl e \<Rightarrow> Inl e
                | Inr nameText \<Rightarrow>
                    (case get_prop error ''message'' of
                       Inl e \<Rightarrow> Inl e
                     | Inr message \<Rightarrow>
                         (case to_string E (js_or message (JStr ''<no message>'')) of
                            Inl e \<Rightarrow> Inl e
                          | Inr messageText \<Rightarrow>
                              (let event = \<lparr>event_exception = [exception],
                                            event_message = nameText @ '': '' @ messageText,
                                            event_extra = None\<rparr>
                               in if length (errorKeys E error) \<noteq> 0 then
                                    (case copy_props error (errorKeys E error) of
                                       Inl e \<Rightarrow> Inl e
                                     | Inr extraErrorInfo \<Rightarrow>
                                         Inr (event\<lparr>event_extra :=
                                                      Some (nameText, extraErrorInfo)\<rparr>))
                                  else Inr event))))))"

section \<open>Sample inputs\<close>

text \<open>
  Concrete inputs on which the theorems below are exercised: a file system with three
  files, a \<open>snipLine\<close> that returns a line as it is and throws on \<open>undefined\<close>, a stack
  parser that reports no frames, and a few raw stack entries and error objects.
\<close>

fun join_lines :: "string list \<Rightarrow> string" where
  "join_lines [] = []"
| "join_lines [l] = l"
| "join_lines (l # ls) = l @ [CHR 0x0A] @ join_lines ls"

definition twenty_lines :: "string list" where
  "twenty_lines =
     [''l01'', ''l02'', ''l03'', ''l04'', ''l05'', ''l06'', ''l07'', ''l08'', ''l09'', ''l10'',
      ''l11'', ''l12'', ''l13'', ''l14'', ''l15'', ''l16'', ''l17'', ''l18'', ''l19'', ''l20'']"

definition sample_files :: "string \<Rightarrow> string option" where
  "sample_files fname =
     (if fname = ''/app/a.js'' then Some (join_lines [''a'', ''b'', ''c''])
      else if fname = ''/app/node_modules/pkg/i.js'' then Some (join_lines [''x'', ''y'', ''z''])
      else if fname = ''/app/twenty.js'' then Some (join_lines twenty_lines)
      else None)"

definition sample_snip :: "string option \<Rightarrow> int \<Rightarrow> js_exception + string" where
  "sample_snip line col = (case line of None \<Rightarrow> Inl TypeError | Some s \<Rightarrow> Inr s)"

definition sample_env :: env where
  "sample_env =
     \<lparr>stacktrace_parse = (\<lambda>error. Inr (Some [])),
      readFileAsync = sample_files,
      snipLine = sample_snip,
      mainModule = ''/app/'',
      array_inherited = [''constructor'', ''toString'', ''hasOwnProperty'', ''push'', ''map''],
      to_string_other = (\<lambda>v. Inl TypeError)\<rparr>"

definition sample_raw :: "string option \<Rightarrow> int option \<Rightarrow> raw_frame" where
  \<comment> \<open>an entry such as \<open>at handler (file:line:5)\<close>\<close>
  "sample_raw file line =
     \<lparr>getFunctionName = Inr (Some ''handler''), getTypeName = Inr None,
      getMethodName = Inr None, getFileName = file, getLineNumber = line,
      getColumnNumber = Some 5, isNative = False\<rparr>"

definition sample_names :: "(js_exception + string option) \<Rightarrow> (js_exception + string option) \<Rightarrow>
    (js_exception + string option) \<Rightarrow> raw_frame" where
  "sample_names fn tn mn =
     \<lparr>getFunctionName = fn, getTypeName = tn, getMethodName = mn,
      getFileName = Some ''/app/a.js'', getLineNumber = Some 1,
      getColumnNumber = Some 1, isNative = False\<rparr>"

definition sample_frame :: "string \<Rightarrow> StackFrame" where
  "sample_frame f =
     \<lparr>colno = Some 1, filename = ''/app/a.js'', func = f, lineno = Some 1, in_app = True,
      frame_module = Some ''a'', pre_context = None, context_line = None,
      post_context = None\<rparr>"

definition sample_error_with :: "(string \<times> jsprop) list \<Rightarrow> error_obj" where
  \<comment> \<open>\<open>new Error('boom')\<close> with the given own enumerable properties\<close>
  "sample_error_with props =
     \<lparr>enumerable = props,
      hidden = [(''message'', Data (JStr ''boom'')), (''stack'', Data (JStr ''Error: boom'')),
                (''name'', Data (JStr ''Error'')),
                (''constructor'', Data (JObj [(''name'', Data (JStr ''Error''))]))]\<rparr>"

definition sample_error :: "(string \<times> jsval) list \<Rightarrow> error_obj" where
  \<comment> \<open>\<open>new Error('boom')\<close> with the given values assigned afterwards\<close>
  "sample_error props = sample_error_with (map (\<lambda>(key, v). (key, Data v)) props)"

definition getter_error :: error_obj where
  \<comment> \<open>\<open>new Error('boom')\<close> with an own enumerable accessor \<open>detail\<close> whose getter throws\<close>
  "getter_error = sample_error_with [(''detail'', Getter (Inl LibraryError))]"

definition bare_error :: error_obj where
  \<comment> \<open>an object without prototype that carries only a message\<close>
  "bare_error = \<lparr>enumerable = [(''message'', Data (JStr ''boom''))], hidden = []\<rparr>"

definition sample_stack :: "raw_frame list" where
  \<comment> \<open>innermost first: the capture call, the handler that called it, the main program\<close>
  "sample_stack =
     [sample_names (Inr (Some ''Hub.captureException'')) (Inr None) (Inr None),
      sample_names (Inr (Some ''handler'')) (Inr None) (Inr None),
      sample_names (Inr (Some ''main'')) (Inr None) (Inr None)]"

definition sample_env_with :: "raw_frame list \<Rightarrow> env" where
  \<comment> \<open>the sample environment with a stack parser that reports the given entries\<close>
  "sample_env_with stack = sample_env\<lparr>stacktrace_parse := (\<lambda>error. Inr (Some stack))\<rparr>"

section \<open>Facts about the primitives\<close>

lemma startsWith_iff: "startsWith s p \<longleftrightarrow> (\<exists>v. s = p @ v)"
  unfolding startsWith_def
  by (metis append_eq_conv_conj append_take_drop_id)

lemma indexOf_scan_found:
  "(indexOf_scan s p k \<noteq> - 1) \<longleftrightarrow> (\<exists>u v. s = u @ p @ v)"
proof (induction s arbitrary: k)
  case Nil
  show ?case by auto
next
  case (Cons c cs)
  show ?case
  proof (cases "startsWith (c # cs) p")
    case True
    then obtain v where "c # cs = [] @ p @ v" by (auto simp: startsWith_iff)
    then have "\<exists>u v. c # cs = u @ p @ v" by blast
    with True show ?thesis by simp
  next
    case False
    have "(\<exists>u v. c # cs = u @ p @ v) \<longleftrightarrow> (\<exists>u v. cs = u @ p @ v)"
    proof
      assume "\<exists>u v. c # cs = u @ p @ v"
      then obtain u v where uv: "c # cs = u @ p @ v" by blast
      show "\<exists>u v. cs = u @ p @ v"
      proof (cases u)
        case Nil
        with uv False show ?thesis by (auto simp: startsWith_iff)
      next
        case (Cons a u')
        with uv have "cs = u' @ p @ v" by simp
        then show ?thesis by blast
      qed
    next
      assume "\<exists>u v. cs = u @ p @ v"
      then obtain u v where "cs = u @ p @ v" by blast
      then have "c # cs = (c # u) @ p @ v" by simp
      then show "\<exists>u v. c # cs = u @ p @ v" by blast
    qed
    with False Cons.IH [of "Suc k"] show ?thesis by simp
  qed
qed

lemma str_includes_iff: "str_includes s p \<longleftrightarrow> (\<exists>u v. s = u @ p @ v)"
  by (simp add: str_includes_def indexOf_def indexOf_scan_found)

lemma slice_from_1: "slice_from (x # xs) 1 = xs"
  by (simp add: slice_from_def slice_def Let_def)

subsection \<open>The frame pipeline\<close>

lemma fold_read_apply:
  "fold (\<lambda>fname sourceFiles.
             case readFileAsync E fname of
               None \<Rightarrow> sourceFiles
             | Some content \<Rightarrow> sourceFiles(fname \<mapsto> content)) fs m f =
   (if f \<in> set fs then (case readFileAsync E f of None \<Rightarrow> m f | Some c \<Rightarrow> Some c) else m f)"
  by (induction fs arbitrary: m) (auto split: option.splits)

lemma readSourceFiles_apply:
  "readSourceFiles E fs f = (if f \<in> set fs then readFileAsync E f else None)"
  by (simp add: readSourceFiles_def fold_read_apply split: option.splits)

lemma snip_all_total:
  "(\<And>l. snipLine E (Some l) 0 = Inr (snip l 0)) \<Longrightarrow>
   snip_all E ls = Inr (map (\<lambda>l. snip l 0) ls)"
  by (induction ls) auto

lemma split_lines_empty: "split_lines [] = [[]]"
  by (simp add: split_lines_def)

lemma length_parseStack: "length (parseStack E stack) = length stack"
  by (simp add: parseStack_def addPrePostContext_def Let_def)

lemma parseStack_nth:
  "i < length stack \<Longrightarrow>
   parseStack E stack ! i =
     addContext E (readSourceFiles E (concat (map (snd \<circ> parseFrame E) stack)))
       (fst (parseFrame E (stack ! i)))"
  by (simp add: parseStack_def addPrePostContext_def Let_def)

lemma parseFrame_no_context:
  "pre_context (fst (parseFrame E r)) = None \<and> context_line (fst (parseFrame E r)) = None \<and>
   post_context (fst (parseFrame E r)) = None"
  by (simp add: parseFrame_def Let_def)

lemma parseFrame_files:
  "f \<in> set (snd (parseFrame E r)) \<longleftrightarrow>
     (f = or_string (getFileName r) [] \<and> f \<noteq> [] \<and> \<not> isInternal (isNative r) f)"
  by (auto simp: parseFrame_def Let_def)

lemma addContext_filename: "filename (addContext E sf frame) = filename frame"
  by (simp add: addContext_def Let_def split: option.splits sum.splits)

lemma addContext_unread:
  "filename frame = [] \<or> sf (filename frame) = None \<or> sf (filename frame) = Some [] \<Longrightarrow>
   addContext E sf frame = frame"
  by (auto simp: addContext_def)

lemma parseFrame_fields:
  "func (fst (parseFrame E r)) = getFunction r \<and>
   filename (fst (parseFrame E r)) = or_string (getFileName r) [] \<and>
   lineno (fst (parseFrame E r)) = getLineNumber r \<and>
   colno (fst (parseFrame E r)) = getColumnNumber r"
  by (simp add: parseFrame_def Let_def)

lemma addContext_fields:
  "func (addContext E sf frame) = func frame \<and>
   lineno (addContext E sf frame) = lineno frame \<and>
   colno (addContext E sf frame) = colno frame"
  by (simp add: addContext_def Let_def split: option.splits sum.splits)

lemma parseStack_fields:
  "i < length stack \<Longrightarrow>
   func (parseStack E stack ! i) = getFunction (stack ! i) \<and>
   filename (parseStack E stack ! i) = or_string (getFileName (stack ! i)) [] \<and>
   lineno (parseStack E stack ! i) = getLineNumber (stack ! i) \<and>
   colno (parseStack E stack ! i) = getColumnNumber (stack ! i)"
  by (simp add: parseStack_nth addContext_fields addContext_filename parseFrame_fields)

lemma getExceptionFromError_frames:
  "getExceptionFromError E error = Inr x \<Longrightarrow>
   \<exists>stack. extractStackFromError E error = Inr stack \<and>
           exc_frames x = prepareFramesForEvent (Some (parseStack E stack))"
  by (auto simp: getExceptionFromError_def Let_def split: sum.splits)

lemma prepareFramesForEvent_Cons:
  "prepareFramesForEvent (Some (f # fs)) = rev (if is_capture (func f) then fs else f # fs)"
  by (simp add: prepareFramesForEvent_def slice_from_1)

subsection \<open>Reading properties\<close>

lemma copy_props_returns_iff:
  "(\<exists>info. copy_props error keys = Inr info) \<longleftrightarrow>
     (\<forall>key \<in> set keys. \<exists>v. get_prop error key = Inr v)"
  by (induction keys) (auto split: sum.splits)

lemma name_of_returns_iff:
  "(\<exists>v. name_of c = Inr v) \<longleftrightarrow>
     (c \<noteq> JUndefined \<and> c \<noteq> JNull \<and>
      (\<forall>ps g. c = JObj ps \<and> map_of ps ''name'' = Some (Getter g) \<longrightarrow> (\<exists>v. g = Inr v)))"
proof (cases c)
  case (JObj ps)
  show ?thesis
  proof (cases "map_of ps ''name''")
    case None
    with JObj show ?thesis by simp
  next
    case (Some p)
    with JObj show ?thesis by (cases p) auto
  qed
qed auto

lemma error_name_resolves_iff:
  "(\<exists>name. error_name error = Inr name) \<longleftrightarrow>
     (\<exists>n. get_prop error ''name'' = Inr n \<and>
          (truthy n \<or>
           (\<exists>c. get_prop error ''constructor'' = Inr c \<and> (\<exists>v. name_of c = Inr v))))"
  by (auto simp: error_name_def split: sum.splits)

lemma getExceptionFromError_returns_iff:
  "(\<exists>x. getExceptionFromError E error = Inr x) \<longleftrightarrow>
     (\<exists>name stack message.
        error_name error = Inr name \<and> stacktrace_parse E error = Inr stack \<and>
        get_prop error ''message'' = Inr message)"
  by (simp add: getExceptionFromError_def extractStackFromError_def Let_def
      split: sum.split option.split)

lemma parseError_returns_copy:
  "(\<exists>event. parseError E error = Inr event) \<longleftrightarrow>
      (\<exists>name stack message nameText messageText.
         error_name error = Inr name \<and>
         stacktrace_parse E error = Inr stack \<and>
         get_prop error ''message'' = Inr message \<and>
         to_string E name = Inr nameText \<and>
         to_string E (js_or message (JStr ''<no message>'')) = Inr messageText \<and>
         (\<exists>info. copy_props error (errorKeys E error) = Inr info))"
proof (cases "error_name error")
  case (Inl e)
  then show ?thesis by (simp add: parseError_def)
next
  case name: (Inr name)
  show ?thesis
  proof (cases "getExceptionFromError E error")
    case (Inl e)
    then have "\<not> (\<exists>stack message. stacktrace_parse E error = Inr stack \<and>
        get_prop error ''message'' = Inr message)"
      using getExceptionFromError_returns_iff [of E error] name by auto
    with name Inl show ?thesis by (auto simp: parseError_def)
  next
    case exc: (Inr exception)
    then obtain stack message where st: "stacktrace_parse E error = Inr stack"
      and msg: "get_prop error ''message'' = Inr message"
      using getExceptionFromError_returns_iff [of E error] by blast
    show ?thesis
    proof (cases "to_string E name")
      case (Inl e)
      with name exc show ?thesis by (simp add: parseError_def)
    next
      case nt: (Inr nameText)
      show ?thesis
      proof (cases "to_string E (js_or message (JStr ''<no message>''))")
        case (Inl e)
        with name exc nt msg show ?thesis by (simp add: parseError_def)
      next
        case mt: (Inr messageText)
        show ?thesis
        proof (cases "copy_props error (errorKeys E error)")
          case (Inl e)
          then have "errorKeys E error \<noteq> []" by (cases "errorKeys E error") auto
          with name exc nt msg mt Inl show ?thesis by (simp add: parseError_def Let_def)
        next
          case (Inr info)
          with name exc nt msg mt st show ?thesis by (simp add: parseError_def Let_def)
        qed
      qed
    qed
  qed
qed

section \<open>Module names: the three examples\<close>

text \<open>
  C7, as the code has it. With base \<open>/app/\<close> the file \<open>/app/lib/foo.js\<close> is named
  \<open>lib:foo\<close>: the directory below the base, a colon, the file stem. The file
  \<open>/app/node_modules/pkg/sub/bar.js\<close> is named \<open>pkg.sub:bar\<close> and \<open>/app/index.js\<close>
  is named \<open>index\<close>, whatever \<open>mainModule\<close> is.
\<close>

theorem getModule_examples:
  "getModule mm ''/app/lib/foo.js'' (Some ''/app/'') = ''lib:foo'' \<and>
   getModule mm ''/app/node_modules/pkg/sub/bar.js'' (Some ''/app/'') = ''pkg.sub:bar'' \<and>
   getModule mm ''/app/index.js'' (Some ''/app/'') = ''index''"
  by (simp add: getModule_def or_string_def basename_def dirname_def is_sep_def endsWith_def
      lastIndexOf_def lastIndexOf_from_def startsWith_def substr_def replace_slashes_def)

text \<open>
  C7 as the specification words it fails on its first example: the name of
  \<open>/app/lib/foo.js\<close> is not \<open>lib.foo\<close>.
\<close>

theorem getModule_lib_foo_counterexample:
  "getModule ''/srv/'' ''/app/lib/foo.js'' (Some ''/app/'') \<noteq> ''lib.foo''"
  by code_simp

section \<open>Frame order in the assembled exception\<close>

text \<open>
  C9. \<open>prepareFramesForEvent\<close> returns the empty sequence for an absent or empty stack.
  For a stack whose first (innermost) entry is \<open>f\<close> it returns the reversed sequence,
  after dropping \<open>f\<close> and nothing else exactly when the function name of \<open>f\<close> contains
  \<open>captureMessage\<close> or \<open>captureException\<close>; when nothing is dropped the innermost
  frame \<open>f\<close> is the last one of the result. The ExceptionRecord that
  \<open>getExceptionFromError\<close> assembles carries exactly this sequence, computed from the
  frames of \<open>parseStack\<close>: it is empty when the parser reports no stack or an empty one;
  for a raw stack with innermost entry \<open>r\<close> it is the reversed frame sequence, without
  the frame of \<open>r\<close> exactly when the function name of \<open>r\<close> carries a marker, and
  otherwise the frame of \<open>r\<close>, the fault frame, is its last element.
\<close>

theorem prepareFramesForEvent_spec:
  "prepareFramesForEvent None = [] \<and>
   prepareFramesForEvent (Some []) = [] \<and>
   prepareFramesForEvent (Some (f # fs)) = rev (if is_capture (func f) then fs else f # fs) \<and>
   (\<not> is_capture (func f) \<longrightarrow> last (prepareFramesForEvent (Some (f # fs))) = f) \<and>
   (is_capture (func f) \<longleftrightarrow>
      (\<exists>u v. func f = u @ ''captureMessage'' @ v \<or> func f = u @ ''captureException'' @ v)) \<and>
   (getExceptionFromError E error = Inr x \<longrightarrow>
      (\<exists>stack. extractStackFromError E error = Inr stack \<and>
               exc_frames x = prepareFramesForEvent (Some (parseStack E stack)))) \<and>
   (getExceptionFromError E error = Inr x \<and>
    (stacktrace_parse E error = Inr None \<or> stacktrace_parse E error = Inr (Some [])) \<longrightarrow>
      exc_frames x = []) \<and>
   (getExceptionFromError E error = Inr x \<and> stacktrace_parse E error = Inr (Some (r # rs)) \<longrightarrow>
      exc_frames x =
        rev (if is_capture (getFunction r) then tl (parseStack E (r # rs))
             else parseStack E (r # rs)) \<and>
      length (exc_frames x) = (if is_capture (getFunction r) then length rs else Suc (length rs)) \<and>
      (\<not> is_capture (getFunction r) \<longrightarrow>
         last (exc_frames x) = parseStack E (r # rs) ! 0 \<and>
         func (last (exc_frames x)) = getFunction r \<and>
         filename (last (exc_frames x)) = or_string (getFileName r) [] \<and>
         lineno (last (exc_frames x)) = getLineNumber r))"
proof -
  have helper: "prepareFramesForEvent None = [] \<and>
   prepareFramesForEvent (Some []) = [] \<and>
   prepareFramesForEvent (Some (f # fs)) = rev (if is_capture (func f) then fs else f # fs) \<and>
   (\<not> is_capture (func f) \<longrightarrow> last (prepareFramesForEvent (Some (f # fs))) = f) \<and>
   (is_capture (func f) \<longleftrightarrow>
      (\<exists>u v. func f = u @ ''captureMessage'' @ v \<or> func f = u @ ''captureException'' @ v))"
    by (auto simp: prepareFramesForEvent_def slice_from_1 is_capture_def str_includes_iff)
  have link: "getExceptionFromError E error = Inr x \<longrightarrow>
      (\<exists>stack. extractStackFromError E error = Inr stack \<and>
               exc_frames x = prepareFramesForEvent (Some (parseStack E stack)))"
    using getExceptionFromError_frames by blast
  have empty: "getExceptionFromError E error = Inr x \<and>
    (stacktrace_parse E error = Inr None \<or> stacktrace_parse E error = Inr (Some [])) \<longrightarrow>
      exc_frames x = []"
  proof
    assume a: "getExceptionFromError E error = Inr x \<and>
      (stacktrace_parse E error = Inr None \<or> stacktrace_parse E error = Inr (Some []))"
    then have "extractStackFromError E error = Inr []"
      by (auto simp: extractStackFromError_def)
    with a getExceptionFromError_frames [of E error x]
    have "exc_frames x = prepareFramesForEvent (Some (parseStack E []))" by auto
    then show "exc_frames x = []"
      by (simp add: prepareFramesForEvent_def parseStack_def addPrePostContext_def)
  qed
  have full: "getExceptionFromError E error = Inr x \<and>
      stacktrace_parse E error = Inr (Some (r # rs)) \<longrightarrow>
      exc_frames x =
        rev (if is_capture (getFunction r) then tl (parseStack E (r # rs))
             else parseStack E (r # rs)) \<and>
      length (exc_frames x) = (if is_capture (getFunction r) then length rs else Suc (length rs)) \<and>
      (\<not> is_capture (getFunction r) \<longrightarrow>
         last (exc_frames x) = parseStack E (r # rs) ! 0 \<and>
         func (last (exc_frames x)) = getFunction r \<and>
         filename (last (exc_frames x)) = or_string (getFileName r) [] \<and>
         lineno (last (exc_frames x)) = getLineNumber r)"
  proof
    assume a: "getExceptionFromError E error = Inr x \<and>
      stacktrace_parse E error = Inr (Some (r # rs))"
    then have "extractStackFromError E error = Inr (r # rs)"
      by (simp add: extractStackFromError_def)
    with a getExceptionFromError_frames [of E error x]
    have fr: "exc_frames x = prepareFramesForEvent (Some (parseStack E (r # rs)))" by auto
    have len: "length (parseStack E (r # rs)) = Suc (length rs)"
      by (simp add: length_parseStack)
    then obtain g gs where ps: "parseStack E (r # rs) = g # gs" and lgs: "length gs = length rs"
      by (cases "parseStack E (r # rs)") auto
    have fields: "func g = getFunction r \<and> filename g = or_string (getFileName r) [] \<and>
        lineno g = getLineNumber r"
      using parseStack_fields [of 0 "r # rs" E] ps by simp
    show "exc_frames x =
        rev (if is_capture (getFunction r) then tl (parseStack E (r # rs))
             else parseStack E (r # rs)) \<and>
      length (exc_frames x) = (if is_capture (getFunction r) then length rs else Suc (length rs)) \<and>
      (\<not> is_capture (getFunction r) \<longrightarrow>
         last (exc_frames x) = parseStack E (r # rs) ! 0 \<and>
         func (last (exc_frames x)) = getFunction r \<and>
         filename (last (exc_frames x)) = or_string (getFileName r) [] \<and>
         lineno (last (exc_frames x)) = getLineNumber r)"
      using fr ps lgs fields by (simp add: prepareFramesForEvent_Cons)
  qed
  from helper link empty full show ?thesis by blast
qed

theorem prepareFramesForEvent_spec_witness:
  "\<not> is_capture (func (sample_frame ''handler'')) \<and>
   last (prepareFramesForEvent (Some [sample_frame ''handler'', sample_frame ''main''])) =
     sample_frame ''handler'' \<and>
   prepareFramesForEvent
     (Some [sample_frame ''Hub.captureException'', sample_frame ''handler'', sample_frame ''main'']) =
     [sample_frame ''main'', sample_frame ''handler''] \<and>
   (\<exists>x. getExceptionFromError (sample_env_with sample_stack) (sample_error []) = Inr x \<and>
        map func (exc_frames x) = [''main'', ''handler'']) \<and>
   (\<exists>x. getExceptionFromError (sample_env_with (tl sample_stack)) (sample_error []) = Inr x \<and>
        map func (exc_frames x) = [''main'', ''handler''] \<and>
        func (last (exc_frames x)) = ''handler'')"
proof -
  have a: "\<not> is_capture (func (sample_frame ''handler''))"
    by (simp add: sample_frame_def is_capture_def str_includes_def indexOf_def startsWith_def)
  have b: "is_capture (func (sample_frame ''Hub.captureException''))"
    by (simp add: sample_frame_def is_capture_def str_includes_def indexOf_def startsWith_def)
  have helper: "\<not> is_capture (func (sample_frame ''handler'')) \<and>
   last (prepareFramesForEvent (Some [sample_frame ''handler'', sample_frame ''main''])) =
     sample_frame ''handler'' \<and>
   prepareFramesForEvent
     (Some [sample_frame ''Hub.captureException'', sample_frame ''handler'', sample_frame ''main'']) =
     [sample_frame ''main'', sample_frame ''handler'']"
    using a b prepareFramesForEvent_spec [of "sample_frame ''handler''" "[sample_frame ''main'']"]
      prepareFramesForEvent_spec [of "sample_frame ''Hub.captureException''"
        "[sample_frame ''handler'', sample_frame ''main'']"]
    by simp
  let ?r1 = "sample_names (Inr (Some ''Hub.captureException'')) (Inr None) (Inr None)"
  let ?r2 = "sample_names (Inr (Some ''handler'')) (Inr None) (Inr None)"
  let ?r3 = "sample_names (Inr (Some ''main'')) (Inr None) (Inr None)"
  have c1: "is_capture (getFunction ?r1)" by code_simp
  have c2: "\<not> is_capture (getFunction ?r2)" by code_simp
  have e1: "\<exists>x. getExceptionFromError (sample_env_with sample_stack) (sample_error []) = Inr x"
    by (simp add: getExceptionFromError_def error_name_def get_prop_def sample_error_def
        sample_error_with_def extractStackFromError_def sample_env_with_def sample_env_def Let_def)
  then obtain x1 where x1: "getExceptionFromError (sample_env_with sample_stack) (sample_error []) = Inr x1"
    by blast
  have p1: "stacktrace_parse (sample_env_with sample_stack) (sample_error []) = Inr (Some (?r1 # [?r2, ?r3]))"
    by (simp add: sample_env_with_def sample_stack_def)
  have m1: "map func (rev (tl (parseStack (sample_env_with sample_stack) (?r1 # [?r2, ?r3])))) =
      [''main'', ''handler'']"
    by code_simp
  have "exc_frames x1 =
      rev (if is_capture (getFunction ?r1)
           then tl (parseStack (sample_env_with sample_stack) (?r1 # [?r2, ?r3]))
           else parseStack (sample_env_with sample_stack) (?r1 # [?r2, ?r3]))"
    using x1 p1
      prepareFramesForEvent_spec [of "sample_frame ''handler''" "[]"
        "sample_env_with sample_stack" "sample_error []" x1 ?r1 "[?r2, ?r3]"]
    by blast
  with c1 m1 have r1: "map func (exc_frames x1) = [''main'', ''handler'']"
    by simp
  have e2: "\<exists>x. getExceptionFromError (sample_env_with (tl sample_stack)) (sample_error []) = Inr x"
    by (simp add: getExceptionFromError_def error_name_def get_prop_def sample_error_def
        sample_error_with_def extractStackFromError_def sample_env_with_def sample_env_def Let_def)
  then obtain x2 where x2: "getExceptionFromError (sample_env_with (tl sample_stack)) (sample_error []) = Inr x2"
    by blast
  have p2: "stacktrace_parse (sample_env_with (tl sample_stack)) (sample_error []) = Inr (Some (?r2 # [?r3]))"
    by (simp add: sample_env_with_def sample_stack_def)
  have m2: "map func (rev (parseStack (sample_env_with (tl sample_stack)) (?r2 # [?r3]))) =
      [''main'', ''handler'']"
    by code_simp
  have g2: "getFunction ?r2 = ''handler''" by code_simp
  have "exc_frames x2 =
      rev (if is_capture (getFunction ?r2)
           then tl (parseStack (sample_env_with (tl sample_stack)) (?r2 # [?r3]))
           else parseStack (sample_env_with (tl sample_stack)) (?r2 # [?r3])) \<and>
      (\<not> is_capture (getFunction ?r2) \<longrightarrow> func (last (exc_frames x2)) = getFunction ?r2)"
    using x2 p2
      prepareFramesForEvent_spec [of "sample_frame ''handler''" "[]"
        "sample_env_with (tl sample_stack)" "sample_error []" x2 ?r2 "[?r3]"]
    by blast
  then have eq2: "exc_frames x2 =
      rev (if is_capture (getFunction ?r2)
           then tl (parseStack (sample_env_with (tl sample_stack)) (?r2 # [?r3]))
           else parseStack (sample_env_with (tl sample_stack)) (?r2 # [?r3]))"
    and last2: "\<not> is_capture (getFunction ?r2) \<longrightarrow> func (last (exc_frames x2)) = getFunction ?r2"
    by blast+
  from eq2 c2 m2 have r2a: "map func (exc_frames x2) = [''main'', ''handler'']"
    by simp
  from last2 c2 g2 have r2b: "func (last (exc_frames x2)) = ''handler''"
    by simp
  from x1 r1
  have ex1: "\<exists>x. getExceptionFromError (sample_env_with sample_stack) (sample_error []) = Inr x \<and>
        map func (exc_frames x) = [''main'', ''handler'']"
    by (intro exI [of _ x1] conjI)
  from x2 r2a r2b
  have ex2: "\<exists>x. getExceptionFromError (sample_env_with (tl sample_stack)) (sample_error []) = Inr x \<and>
        map func (exc_frames x) = [''main'', ''handler''] \<and>
        func (last (exc_frames x)) = ''handler''"
    by (intro exI [of _ x2] conjI)
  from helper ex1 ex2 show ?thesis by (simp only: simp_thms)
qed

section \<open>What prepareFramesForEvent does to the caller's array\<close>

lemma prepareFramesForEvent_store_value:
  "r < length h \<Longrightarrow>
   fst (prepareFramesForEvent_store h (Some r)) ! snd (prepareFramesForEvent_store h (Some r)) =
     prepareFramesForEvent (Some (h ! r))"
  by (cases "h ! r")
     (auto simp: prepareFramesForEvent_store_def prepareFramesForEvent_def alloc_def
        reverse_in_place_def slice_from_1 nth_append)

text \<open>
  C10, as the code has it. Let the caller's array, at reference \<open>r\<close>, hold the frames
  \<open>f # fs\<close>. When the function name of \<open>f\<close> contains no capture marker, the call
  returns the reference \<open>r\<close> itself and the store differs only at \<open>r\<close>, which is
  overwritten with the reversed frames. When \<open>f\<close> is dropped, the call returns a new
  reference, to the reversed rest, and the array at \<open>r\<close> is not written. The caller's
  array holds the same frames in the same order after the call exactly when \<open>f\<close> is
  dropped or the frame list is equal to its own reverse, as a list of one frame is.
\<close>

theorem prepareFramesForEvent_store_effect:
  assumes "r < length h" and "h ! r = f # fs"
  shows "(\<not> is_capture (func f) \<longrightarrow>
            prepareFramesForEvent_store h (Some r) = (h[r := rev (f # fs)], r)) \<and>
         (is_capture (func f) \<longrightarrow>
            prepareFramesForEvent_store h (Some r) = (h @ [rev fs], length h) \<and>
            length h \<noteq> r \<and> (h @ [rev fs]) ! r = h ! r) \<and>
         (fst (prepareFramesForEvent_store h (Some r)) ! r = h ! r \<longleftrightarrow>
            is_capture (func f) \<or> rev (f # fs) = f # fs)"
  using assms
  by (auto simp: prepareFramesForEvent_store_def alloc_def reverse_in_place_def slice_from_1
      nth_append)

theorem prepareFramesForEvent_store_effect_witness:
  "prepareFramesForEvent_store [[sample_frame ''handler'', sample_frame ''main'']] (Some 0) =
     ([[sample_frame ''main'', sample_frame ''handler'']], 0) \<and>
   prepareFramesForEvent_store [[sample_frame ''captureMessage'', sample_frame ''main'']] (Some 0) =
     ([[sample_frame ''captureMessage'', sample_frame ''main''], [sample_frame ''main'']], 1) \<and>
   fst (prepareFramesForEvent_store [[sample_frame ''handler'']] (Some 0)) ! 0 =
     [sample_frame ''handler'']"
proof -
  have a: "\<not> is_capture (func (sample_frame ''handler''))"
    by (simp add: sample_frame_def is_capture_def str_includes_def indexOf_def startsWith_def)
  have b: "is_capture (func (sample_frame ''captureMessage''))"
    by (simp add: sample_frame_def is_capture_def str_includes_def indexOf_def startsWith_def)
  show ?thesis
    using a b
      prepareFramesForEvent_store_effect [of 0 "[[sample_frame ''handler'', sample_frame ''main'']]"
        "sample_frame ''handler''" "[sample_frame ''main'']"]
      prepareFramesForEvent_store_effect [of 0 "[[sample_frame ''captureMessage'', sample_frame ''main'']]"
        "sample_frame ''captureMessage''" "[sample_frame ''main'']"]
      prepareFramesForEvent_store_effect [of 0 "[[sample_frame ''handler'']]"
        "sample_frame ''handler''" "[]"]
    by simp
qed

text \<open>
  C10 as it is worded fails for a stack of one frame without marker: nothing is dropped,
  the array is reversed in place, and the caller's array holds what it held before, so
  it is not reordered and it remains unchanged although no frame was dropped.
\<close>

theorem prepareFramesForEvent_store_single_frame_counterexample:
  "\<not> is_capture (func (sample_frame ''handler'')) \<and>
   prepareFramesForEvent_store [[sample_frame ''handler'']] (Some 0) =
     ([[sample_frame ''handler'']], 0)"
  by (simp add: prepareFramesForEvent_store_def reverse_in_place_def sample_frame_def
      is_capture_def str_includes_def indexOf_def startsWith_def)

section \<open>The function field\<close>

text \<open>
  C4, as the code has it. A reported function name that is not empty is the result. With
  no function name, and type and method name read without a throw, the result is the type
  name (the text \<open>null\<close> when there is none), a dot, and the method name, with
  \<open><anonymous>\<close> in place of a method name that is null or empty. The result is the bare
  sentinel \<open><anonymous>\<close> when one of the getters that are reached throws. This result
  is the \<open>function\<close> field of the normalized frame, also after \<open>parseStack\<close> has added
  source context.
\<close>

theorem getFunction_cases:
  "(getFunctionName frame = Inr (Some fn) \<and> fn \<noteq> [] \<longrightarrow> getFunction frame = fn) \<and>
   ((getFunctionName frame = Inr None \<or> getFunctionName frame = Inr (Some [])) \<and>
    getTypeName frame = Inr tn \<and> getMethodName frame = Inr mn \<longrightarrow>
      getFunction frame =
        (case tn of None \<Rightarrow> ''null'' | Some t \<Rightarrow> t) @ ''.'' @
        (case mn of None \<Rightarrow> ''<anonymous>''
                  | Some m \<Rightarrow> if m = [] then ''<anonymous>'' else m)) \<and>
   (getFunctionName frame = Inl e \<longrightarrow> getFunction frame = ''<anonymous>'') \<and>
   ((getFunctionName frame = Inr None \<or> getFunctionName frame = Inr (Some [])) \<and>
    (getTypeName frame = Inl e \<or> getMethodName frame = Inl e) \<longrightarrow>
      getFunction frame = ''<anonymous>'') \<and>
   func (fst (parseFrame E frame)) = getFunction frame \<and>
   (i < length stack \<longrightarrow> func (parseStack E stack ! i) = getFunction (stack ! i))"
proof -
  have a1: "getFunctionName frame = Inr (Some fn) \<and> fn \<noteq> [] \<longrightarrow> getFunction frame = fn"
    by (auto simp: getFunction_def getFunction_try_def or_string_def)
  have a2: "(getFunctionName frame = Inr None \<or> getFunctionName frame = Inr (Some [])) \<and>
    getTypeName frame = Inr tn \<and> getMethodName frame = Inr mn \<longrightarrow>
      getFunction frame =
        (case tn of None \<Rightarrow> ''null'' | Some t \<Rightarrow> t) @ ''.'' @
        (case mn of None \<Rightarrow> ''<anonymous>''
                  | Some m \<Rightarrow> if m = [] then ''<anonymous>'' else m)"
    by (auto simp: getFunction_def getFunction_try_def or_string_def nullable_to_string_def
        split: option.splits)
  have a3: "getFunctionName frame = Inl e \<longrightarrow> getFunction frame = ''<anonymous>''"
    by (simp add: getFunction_def getFunction_try_def)
  have a4: "(getFunctionName frame = Inr None \<or> getFunctionName frame = Inr (Some [])) \<and>
    (getTypeName frame = Inl e \<or> getMethodName frame = Inl e) \<longrightarrow>
      getFunction frame = ''<anonymous>''"
    by (auto simp: getFunction_def getFunction_try_def or_string_def split: sum.splits)
  have b: "func (fst (parseFrame E frame)) = getFunction frame"
    by (simp add: parseFrame_fields)
  have c: "i < length stack \<longrightarrow> func (parseStack E stack ! i) = getFunction (stack ! i)"
    by (simp add: parseStack_fields)
  from a1 a2 a3 a4 b c show ?thesis by (intro conjI)
qed

theorem getFunction_cases_witness:
  "getFunction (sample_names (Inr (Some ''handler'')) (Inr None) (Inr None)) = ''handler'' \<and>
   getFunction (sample_names (Inr None) (Inr (Some ''Server'')) (Inr (Some ''listen''))) =
     ''Server.listen'' \<and>
   getFunction (sample_names (Inr None) (Inr None) (Inr None)) = ''null.<anonymous>'' \<and>
   getFunction (sample_names (Inl TypeError) (Inr None) (Inr None)) = ''<anonymous>'' \<and>
   getFunction (sample_names (Inr None) (Inl TypeError) (Inr (Some ''listen''))) = ''<anonymous>'' \<and>
   func (parseStack sample_env
           [sample_names (Inr None) (Inr (Some ''Server'')) (Inr (Some ''listen''))] ! 0) =
     ''Server.listen''"
  using getFunction_cases [of "sample_names (Inr (Some ''handler'')) (Inr None) (Inr None)"
          "''handler''" None None TypeError]
    getFunction_cases [of "sample_names (Inr None) (Inr (Some ''Server'')) (Inr (Some ''listen''))"
          "[]" "Some ''Server''" "Some ''listen''" TypeError sample_env 0
          "[sample_names (Inr None) (Inr (Some ''Server'')) (Inr (Some ''listen''))]"]
    getFunction_cases [of "sample_names (Inr None) (Inr None) (Inr None)"
          "[]" None None TypeError]
    getFunction_cases [of "sample_names (Inl TypeError) (Inr None) (Inr None)"
          "[]" None None TypeError]
    getFunction_cases [of "sample_names (Inr None) (Inl TypeError) (Inr (Some ''listen''))"
          "[]" None None TypeError]
  by (simp add: sample_names_def)

text \<open>
  C4 as the specification words it fails: an entry such as \<open>at Object.<anonymous> (...)\<close>
  has no function name and no method name, nothing throws, and its function field is
  \<open>Object.<anonymous>\<close>, not the bare sentinel.
\<close>

theorem getFunction_sentinel_counterexample:
  "getFunctionName (sample_names (Inr None) (Inr (Some ''Object'')) (Inr None)) = Inr None \<and>
   getMethodName (sample_names (Inr None) (Inr (Some ''Object'')) (Inr None)) = Inr None \<and>
   getFunction (sample_names (Inr None) (Inr (Some ''Object'')) (Inr None)) = ''Object.<anonymous>'' \<and>
   getFunction (sample_names (Inr None) (Inr (Some ''Object'')) (Inr None)) \<noteq> ''<anonymous>''"
  by (simp add: sample_names_def getFunction_def getFunction_try_def or_string_def
      nullable_to_string_def)

section \<open>Frames without a filename\<close>

text \<open>
  C2 on the code. An entry without a filename gets the empty string as filename, which
  is not \<open>undefined\<close>, so the test \<open>filename !== undefined\<close> lets it through: such an
  entry is in-app exactly when it is not native. The entry \<open>at handler (<anonymous>)\<close>,
  not native and without filename, comes out of \<open>parseStack\<close> with \<open>in_app\<close> true.
\<close>

theorem parseStack_no_filename_in_app:
  "in_app (fst (parseFrame E (frame\<lparr>getFileName := None\<rparr>))) = (\<not> isNative frame) \<and>
   getFileName (sample_raw None (Some 3)) = None \<and>
   map filename (parseStack sample_env [sample_raw None (Some 3)]) = [[]] \<and>
   map in_app (parseStack sample_env [sample_raw None (Some 3)]) = [True]"
proof -
  have "in_app (fst (parseFrame E (frame\<lparr>getFileName := None\<rparr>))) = (\<not> isNative frame)"
    by (simp add: parseFrame_def or_string_def isInternal_def str_includes_def indexOf_def
        Let_def)
  moreover have "getFileName (sample_raw None (Some 3)) = None"
    by (simp add: sample_raw_def)
  moreover have "map filename (parseStack sample_env [sample_raw None (Some 3)]) = [[]]"
    by code_simp
  moreover have "map in_app (parseStack sample_env [sample_raw None (Some 3)]) = [True]"
    by code_simp
  ultimately show ?thesis by blast
qed

section \<open>The extra mapping\<close>

text \<open>
  C1 on the code. The filter of \<open>parseError\<close> asks whether the key is a property name of
  the array of reserved names, so it removes \<open>0\<close>, \<open>1\<close>, \<open>2\<close>, \<open>3\<close>, \<open>length\<close> and
  inherited names, and keeps \<open>name\<close>, \<open>message\<close>, \<open>stack\<close> and \<open>domain\<close>. For an Error
  with \<open>name\<close>, \<open>customCode\<close> and \<open>length\<close> assigned, the extra mapping holds \<open>name\<close>
  and \<open>customCode\<close>, and not \<open>length\<close>.
\<close>

theorem parseError_reserved_name_in_extra:
  "(case parseError sample_env
           (sample_error [(''name'', JStr ''MyError''), (''customCode'', JNum 42),
                          (''length'', JNum 3)]) of
      Inl e \<Rightarrow> None
    | Inr event \<Rightarrow> event_extra event) =
   Some (''MyError'', [(''name'', JStr ''MyError''), (''customCode'', JNum 42)])"
  by code_simp

section \<open>When parseError returns\<close>

text \<open>
  C3, as the code has it. \<open>parseError\<close> returns an event when, and only when, every
  step that can throw completes: the type name of the error resolves, the stack parser
  returns, \<open>message\<close> is read and the type name and the message (or its placeholder)
  convert to strings, and the read of every own enumerable property that the filter keeps
  completes. When one of them throws, the exception leaves \<open>parseError\<close>. The type name
  resolves when, and only when, \<open>name\<close> is read and is truthy, or else \<open>constructor\<close>
  is read, is neither null nor undefined, and its \<open>name\<close> is read.
\<close>

theorem parseError_returns_iff:
  "((\<exists>event. parseError E error = Inr event) \<longleftrightarrow>
      (\<exists>name stack message nameText messageText.
         error_name error = Inr name \<and>
         stacktrace_parse E error = Inr stack \<and>
         get_prop error ''message'' = Inr message \<and>
         to_string E name = Inr nameText \<and>
         to_string E (js_or message (JStr ''<no message>'')) = Inr messageText \<and>
         (\<forall>key \<in> set (errorKeys E error). \<exists>v. get_prop error key = Inr v))) \<and>
   ((\<exists>name. error_name error = Inr name) \<longleftrightarrow>
      (\<exists>n. get_prop error ''name'' = Inr n \<and>
           (truthy n \<or>
            (\<exists>c. get_prop error ''constructor'' = Inr c \<and> c \<noteq> JUndefined \<and> c \<noteq> JNull \<and>
                 (\<forall>ps g. c = JObj ps \<and> map_of ps ''name'' = Some (Getter g) \<longrightarrow>
                         (\<exists>v. g = Inr v))))))"
proof
  have copy: "(\<exists>info. copy_props error (errorKeys E error) = Inr info) \<longleftrightarrow>
      (\<forall>key \<in> set (errorKeys E error). \<exists>v. get_prop error key = Inr v)"
    by (rule copy_props_returns_iff)
  have "(\<exists>event. parseError E error = Inr event) \<longleftrightarrow>
      (\<exists>name stack message nameText messageText.
         error_name error = Inr name \<and>
         stacktrace_parse E error = Inr stack \<and>
         get_prop error ''message'' = Inr message \<and>
         to_string E name = Inr nameText \<and>
         to_string E (js_or message (JStr ''<no message>'')) = Inr messageText \<and>
         (\<exists>info. copy_props error (errorKeys E error) = Inr info))"
    by (rule parseError_returns_copy)
  with copy show "(\<exists>event. parseError E error = Inr event) \<longleftrightarrow>
      (\<exists>name stack message nameText messageText.
         error_name error = Inr name \<and>
         stacktrace_parse E error = Inr stack \<and>
         get_prop error ''message'' = Inr message \<and>
         to_string E name = Inr nameText \<and>
         to_string E (js_or message (JStr ''<no message>'')) = Inr messageText \<and>
         (\<forall>key \<in> set (errorKeys E error). \<exists>v. get_prop error key = Inr v))"
    by simp
next
  show "(\<exists>name. error_name error = Inr name) \<longleftrightarrow>
      (\<exists>n. get_prop error ''name'' = Inr n \<and>
           (truthy n \<or>
            (\<exists>c. get_prop error ''constructor'' = Inr c \<and> c \<noteq> JUndefined \<and> c \<noteq> JNull \<and>
                 (\<forall>ps g. c = JObj ps \<and> map_of ps ''name'' = Some (Getter g) \<longrightarrow>
                         (\<exists>v. g = Inr v)))))"
    by (simp only: error_name_resolves_iff name_of_returns_iff)
qed

theorem parseError_returns_iff_witness:
  "(\<exists>event. parseError sample_env (sample_error [(''customCode'', JNum 42)]) = Inr event) \<and>
   \<not> (\<exists>event. parseError sample_env getter_error = Inr event)"
proof -
  let ?err = "sample_error [(''customCode'', JNum 42)]"
  have "error_name ?err = Inr (JStr ''Error'')"
    by (simp add: error_name_def sample_error_def sample_error_with_def get_prop_def)
  moreover have "stacktrace_parse sample_env ?err = Inr (Some [])"
    by (simp add: sample_env_def)
  moreover have "get_prop ?err ''message'' = Inr (JStr ''boom'')"
    by (simp add: sample_error_def sample_error_with_def get_prop_def)
  moreover have "to_string sample_env (JStr ''Error'') = Inr ''Error''"
    by (simp add: to_string_def)
  moreover have "to_string sample_env (js_or (JStr ''boom'') (JStr ''<no message>'')) = Inr ''boom''"
    by (simp add: to_string_def js_or_def)
  moreover have "\<forall>key \<in> set (errorKeys sample_env ?err). \<exists>v. get_prop ?err key = Inr v"
    by (simp add: errorKeys_def object_keys_def in_reserved_array_def sample_env_def
        sample_error_def sample_error_with_def get_prop_def)
  ultimately have pos: "\<exists>event. parseError sample_env ?err = Inr event"
    using parseError_returns_iff [of sample_env ?err] by blast
  have k: "''detail'' \<in> set (errorKeys sample_env getter_error)"
    by (simp add: errorKeys_def object_keys_def in_reserved_array_def sample_env_def
        getter_error_def sample_error_with_def)
  have t: "get_prop getter_error ''detail'' = Inl LibraryError"
    by (simp add: getter_error_def sample_error_with_def get_prop_def)
  have "\<not> (\<forall>key \<in> set (errorKeys sample_env getter_error). \<exists>v. get_prop getter_error key = Inr v)"
  proof
    assume "\<forall>key \<in> set (errorKeys sample_env getter_error). \<exists>v. get_prop getter_error key = Inr v"
    with k obtain v where "get_prop getter_error ''detail'' = Inr v" by blast
    with t show False by simp
  qed
  then have neg: "\<not> (\<exists>event. parseError sample_env getter_error = Inr event)"
    using parseError_returns_iff [of sample_env getter_error] by blast
  from pos neg show ?thesis by blast
qed

text \<open>
  C3 as the specification words it fails: an object that has a message but neither a
  name nor a constructor makes \<open>parseError\<close> throw a TypeError, although the stack parser
  returns for it.
\<close>

theorem parseError_throws_counterexample:
  "get_prop bare_error ''stack'' = Inr JUndefined \<and>
   stacktrace_parse sample_env bare_error = Inr (Some []) \<and>
   parseError sample_env bare_error = Inl TypeError"
  by (simp add: parseError_def error_name_def bare_error_def get_prop_def sample_env_def)

section \<open>Context lines around fault line 10\<close>

text \<open>
  C8. Let a frame with fault line 10 name a file that was requested and read, and let the
  file split into 20 lines; let \<open>snipLine\<close> return \<open>snip line col\<close> for every line and
  column. Then the enricher sets \<open>pre_context\<close> to the seven lines after the first two
  (lines 3 to 9), each snipped at column 0, \<open>context_line\<close> to line 10 snipped at the
  frame's column (0 when it has none), and \<open>post_context\<close> to the seven lines after the
  first ten (lines 11 to 17), each snipped at column 0.
\<close>

theorem addPrePostContext_line_10:
  assumes i: "i < length frames"
    and fr: "frames ! i = frame"
    and name: "filename frame \<noteq> []"
    and req: "filename frame \<in> set filesToRead"
    and rd: "readFileAsync E (filename frame) = Some content"
    and ls: "split_lines content = lines"
    and len: "length lines = 20"
    and ln: "lineno frame = Some 10"
    and snip: "\<forall>line col. snipLine E (Some line) col = Inr (snip line col)"
    and g: "g = addPrePostContext E filesToRead frames ! i"
  shows "pre_context g = Some (map (\<lambda>l. snip l 0) (take 7 (drop 2 lines))) \<and>
         context_line g = Some (snip (lines ! 9) (or_zero (colno frame))) \<and>
         post_context g = Some (map (\<lambda>l. snip l 0) (take 7 (drop 10 lines))) \<and>
         length (take 7 (drop 2 lines)) = 7 \<and> length (take 7 (drop 10 lines)) = 7 \<and>
         (\<forall>k<7. take 7 (drop 2 lines) ! k = lines ! (k + 2) \<and>
                take 7 (drop 10 lines) ! k = lines ! (k + 10))"
proof -
  have cne: "content \<noteq> []" using ls len by (auto simp: split_lines_empty)
  have sf: "readSourceFiles E filesToRead (filename frame) = Some content"
    using req rd by (simp add: readSourceFiles_apply)
  have pre: "slice lines (max 0 (10 - (LINES_OF_CONTEXT + 1))) (10 - 1) = take 7 (drop 2 lines)"
    using len by (simp add: slice_def LINES_OF_CONTEXT_def Let_def)
  have post: "slice lines 10 (10 + LINES_OF_CONTEXT) = take 7 (drop 10 lines)"
    using len by (simp add: slice_def LINES_OF_CONTEXT_def Let_def)
  have at: "element_at lines (10 - 1) = Some (lines ! 9)"
    using len by (simp add: element_at_def)
  have sa: "\<And>xs. snip_all E xs = Inr (map (\<lambda>l. snip l 0) xs)"
    using snip by (intro snip_all_total) simp
  have "g = addContext E (readSourceFiles E filesToRead) frame"
    using i fr g by (simp add: addPrePostContext_def Let_def)
  then have "pre_context g = Some (map (\<lambda>l. snip l 0) (take 7 (drop 2 lines))) \<and>
         context_line g = Some (snip (lines ! 9) (or_zero (colno frame))) \<and>
         post_context g = Some (map (\<lambda>l. snip l 0) (take 7 (drop 10 lines)))"
    using name sf cne ls ln pre post at sa snip
    by (simp add: addContext_def or_zero_def Let_def)
  moreover have "length (take 7 (drop 2 lines)) = 7 \<and> length (take 7 (drop 10 lines)) = 7"
    using len by simp
  moreover have "\<forall>k<7. take 7 (drop 2 lines) ! k = lines ! (k + 2) \<and>
                take 7 (drop 10 lines) ! k = lines ! (k + 10)"
    using len by (simp add: add.commute)
  ultimately show ?thesis by blast
qed

theorem addPrePostContext_line_10_witness:
  "pre_context (addPrePostContext sample_env [''/app/twenty.js'']
      [(sample_frame ''handler'')\<lparr>filename := ''/app/twenty.js'', lineno := Some 10\<rparr>] ! 0) =
     Some [''l03'', ''l04'', ''l05'', ''l06'', ''l07'', ''l08'', ''l09''] \<and>
   context_line (addPrePostContext sample_env [''/app/twenty.js'']
      [(sample_frame ''handler'')\<lparr>filename := ''/app/twenty.js'', lineno := Some 10\<rparr>] ! 0) =
     Some ''l10'' \<and>
   post_context (addPrePostContext sample_env [''/app/twenty.js'']
      [(sample_frame ''handler'')\<lparr>filename := ''/app/twenty.js'', lineno := Some 10\<rparr>] ! 0) =
     Some [''l11'', ''l12'', ''l13'', ''l14'', ''l15'', ''l16'', ''l17'']"
proof -
  let ?f = "(sample_frame ''handler'')\<lparr>filename := ''/app/twenty.js'', lineno := Some 10\<rparr>"
  have h1: "(0::nat) < length [?f]" by simp
  have h2: "[?f] ! 0 = ?f" by simp
  have h3: "filename ?f \<noteq> []" by simp
  have h4: "filename ?f \<in> set [''/app/twenty.js'']" by simp
  have h5: "readFileAsync sample_env (filename ?f) = Some (join_lines twenty_lines)"
    by (simp add: sample_env_def sample_files_def)
  have h6: "split_lines (join_lines twenty_lines) = twenty_lines"
    by code_simp
  have h7: "length twenty_lines = 20" by (simp add: twenty_lines_def)
  have h8: "lineno ?f = Some 10" by simp
  have h9: "\<forall>line col. snipLine sample_env (Some line) col = Inr ((\<lambda>l c. l) line col)"
    by (simp add: sample_env_def sample_snip_def)
  show ?thesis
    using addPrePostContext_line_10 [OF h1 h2 h3 h4 h5 h6 h7 h8 h9 refl]
    by (simp add: twenty_lines_def)
qed

section \<open>Which frames carry context\<close>

text \<open>
  C6, as the code has it. A frame of the output of \<open>parseStack\<close> that carries any of
  \<open>pre_context\<close>, \<open>context_line\<close>, \<open>post_context\<close> has a filename that is not empty,
  that names a file read with content that is not empty, and that was requested for
  reading by an entry of the stack that is not internal. Every other frame has all three
  fields absent. Being in-app is not required.
\<close>

theorem parseStack_context_only_if:
  assumes i: "i < length stack"
    and g: "g = parseStack E stack ! i"
    and ctx: "pre_context g \<noteq> None \<or> context_line g \<noteq> None \<or> post_context g \<noteq> None"
  shows "filename g \<noteq> [] \<and>
         (\<exists>content. readFileAsync E (filename g) = Some content \<and> content \<noteq> []) \<and>
         (\<exists>r \<in> set stack. or_string (getFileName r) [] = filename g \<and>
                           \<not> isInternal (isNative r) (filename g))"
proof -
  let ?sf = "readSourceFiles E (concat (map (snd \<circ> parseFrame E) stack))"
  let ?p = "fst (parseFrame E (stack ! i))"
  have g': "g = addContext E ?sf ?p" using i g by (simp add: parseStack_nth)
  have changed: "addContext E ?sf ?p \<noteq> ?p"
    using ctx g' parseFrame_no_context [of E "stack ! i"] by auto
  have ne: "filename ?p \<noteq> []"
  proof
    assume "filename ?p = []"
    then have "addContext E ?sf ?p = ?p" by (simp add: addContext_unread)
    with changed show False by simp
  qed
  have s1: "?sf (filename ?p) \<noteq> None"
  proof
    assume "?sf (filename ?p) = None"
    then have "addContext E ?sf ?p = ?p" by (simp add: addContext_unread)
    with changed show False by simp
  qed
  have s2: "?sf (filename ?p) \<noteq> Some []"
  proof
    assume "?sf (filename ?p) = Some []"
    then have "addContext E ?sf ?p = ?p" by (simp add: addContext_unread)
    with changed show False by simp
  qed
  have fg: "filename g = filename ?p" by (simp add: g' addContext_filename)
  from s1 obtain content where c: "?sf (filename ?p) = Some content" by blast
  with s2 have cne: "content \<noteq> []" by auto
  from c have mem: "filename ?p \<in> set (concat (map (snd \<circ> parseFrame E) stack))"
    and rd: "readFileAsync E (filename ?p) = Some content"
    by (auto simp: readSourceFiles_apply split: if_splits)
  from mem obtain r where r: "r \<in> set stack" "filename ?p \<in> set (snd (parseFrame E r))"
    by auto
  then have "or_string (getFileName r) [] = filename ?p \<and> \<not> isInternal (isNative r) (filename ?p)"
    by (auto simp: parseFrame_files)
  with r(1) ne rd cne fg show ?thesis by auto
qed

theorem parseStack_context_only_if_witness:
  "pre_context (parseStack sample_env [sample_raw (Some ''/app/a.js'') (Some 2)] ! 0) \<noteq> None \<and>
   filename (parseStack sample_env [sample_raw (Some ''/app/a.js'') (Some 2)] ! 0) \<noteq> [] \<and>
   (\<exists>content.
      readFileAsync sample_env
        (filename (parseStack sample_env [sample_raw (Some ''/app/a.js'') (Some 2)] ! 0)) =
        Some content \<and> content \<noteq> [])"
proof -
  have h1: "(0::nat) < length [sample_raw (Some ''/app/a.js'') (Some 2)]" by simp
  have h3: "pre_context (parseStack sample_env [sample_raw (Some ''/app/a.js'') (Some 2)] ! 0) \<noteq> None"
    by code_simp
  then have h3': "pre_context (parseStack sample_env [sample_raw (Some ''/app/a.js'') (Some 2)] ! 0) \<noteq> None \<or>
    context_line (parseStack sample_env [sample_raw (Some ''/app/a.js'') (Some 2)] ! 0) \<noteq> None \<or>
    post_context (parseStack sample_env [sample_raw (Some ''/app/a.js'') (Some 2)] ! 0) \<noteq> None"
    by blast
  show ?thesis
    using h3 parseStack_context_only_if [OF h1 refl h3'] by blast
qed

text \<open>
  C6 as the specification words it fails: a frame below \<open>node_modules/\<close> is not in-app,
  yet its file is requested and read, and it carries all three context fields.
\<close>

theorem parseStack_context_not_in_app_counterexample:
  "map in_app (parseStack sample_env [sample_raw (Some ''/app/node_modules/pkg/i.js'') (Some 2)]) =
     [False] \<and>
   map pre_context (parseStack sample_env [sample_raw (Some ''/app/node_modules/pkg/i.js'') (Some 2)]) =
     [Some [''x'']] \<and>
   map context_line (parseStack sample_env [sample_raw (Some ''/app/node_modules/pkg/i.js'') (Some 2)]) =
     [Some ''y''] \<and>
   map post_context (parseStack sample_env [sample_raw (Some ''/app/node_modules/pkg/i.js'') (Some 2)]) =
     [Some [''z'']]"
  by code_simp

section \<open>A fault line that is unknown or 0\<close>

text \<open>
  C5 on the code. With an unknown fault line, or fault line 0, the end of the slice for
  \<open>pre_context\<close> is -1, which \<open>slice\<close> counts from the end of the array: for the file
  with the lines a, b, c the field \<open>pre_context\<close> holds a and b. Whatever \<open>snipLine\<close>
  does, \<open>pre_context\<close> is not the empty sequence for that file.
\<close>

theorem addPrePostContext_unknown_line:
  "pre_context (hd (parseStack sample_env [sample_raw (Some ''/app/a.js'') None])) =
     Some [''a'', ''b''] \<and>
   pre_context (hd (parseStack sample_env [sample_raw (Some ''/app/a.js'') (Some 0)])) =
     Some [''a'', ''b''] \<and>
   pre_context (hd (parseStack (sample_env\<lparr>snipLine := snip\<rparr>)
                      [sample_raw (Some ''/app/a.js'') None])) \<noteq> Some []"
proof -
  have a: "pre_context (hd (parseStack sample_env [sample_raw (Some ''/app/a.js'') None])) =
     Some [''a'', ''b'']"
    by code_simp
  have b: "pre_context (hd (parseStack sample_env [sample_raw (Some ''/app/a.js'') (Some 0)])) =
     Some [''a'', ''b'']"
    by code_simp
  have c: "pre_context (hd (parseStack (sample_env\<lparr>snipLine := snip\<rparr>)
                      [sample_raw (Some ''/app/a.js'') None])) \<noteq> Some []"
    by (simp add: parseStack_def parseFrame_def sample_raw_def or_string_def isInternal_def
        startsWith_def addPrePostContext_def readSourceFiles_def sample_env_def sample_files_def
        addContext_def split_lines_def or_zero_def slice_def LINES_OF_CONTEXT_def Let_def
        split: sum.splits)
  from a b c show ?thesis by simp
qed

end
